theory Spec2Isabelle
  imports Main
begin

section \<open>Data model of the event dispatcher\<close>

text \<open>
  The embedded program is \<^verbatim>\<open>src/Kathara/event/EventDispatcher.py\<close>: a singleton
  class with one slot, \<^verbatim>\<open>events\<close>, a dictionary from event names to lists of
  pairs \<^verbatim>\<open>(run_callback, unregister_callback)\<close>.

  Exceptions are values. \<^verbatim>\<open>getattr\<close> on a missing attribute raises Python's
  \<^verbatim>\<open>AttributeError\<close> (the "missing capability" kind), a dictionary read of a
  missing key raises \<^verbatim>\<open>KeyError\<close> (the "not found" kind), the constructor raises
  \<^verbatim>\<open>InstantiationError\<close>, and a subscriber's own code may raise anything.
\<close>

datatype error =
    InstantiationError string
  | AttributeError string
  | KeyError string
  | SubscriberError string

text \<open>
  An attribute value of a subscriber object. The dispatcher does two things with such a
  value: it tests its truth value (\<^verbatim>\<open>if unregister_callback:\<close>) and it calls it.
  \<open>cb_id\<close> is the identity of the value, \<open>cb_truthy\<close> its truth value (bound
  methods and functions are always true).
\<close>

datatype callable = Callable (cb_id: string) (cb_truthy: bool)

text \<open>A subscriber object, seen through \<^verbatim>\<open>getattr\<close>/\<^verbatim>\<open>hasattr\<close>: its attributes.\<close>

type_synonym pyobject = "string \<rightharpoonup> callable"

text \<open>\<^verbatim>\<open>Tuple[Callable, Optional[Callable]]\<close>\<close>

type_synonym entry = "callable \<times> callable option"

text \<open>\<^verbatim>\<open>__slots__ = ['events']\<close>\<close>

record dispatcher =
  events :: "string \<rightharpoonup> entry list"

text \<open>
  Keyword arguments are a dictionary from names to values of any type \<open>'v\<close>; calling
  with no arguments is calling with the empty dictionary.
\<close>

type_synonym 'v kwargs = "(string \<times> 'v) list"

text \<open>
  Subscribers are code outside the dispatcher. A call of a callback is recorded in a log
  of calls, oldest first, and its outcome (it returns, or it raises) is given by a
  parameter \<open>beh\<close> of the model, which may depend on every call made so far. The
  callbacks are taken not to call back into the dispatcher.
\<close>

datatype 'v call = Call (target: callable) (arguments: "'v kwargs")

type_synonym 'v behaviour = "'v call list \<Rightarrow> 'v call \<Rightarrow> error option"

subsection \<open>The singleton\<close>

text \<open>
  \<open>singleton\<close> is the class attribute \<^verbatim>\<open>EventDispatcher.__instance\<close>; \<open>heap\<close>
  holds the objects whose \<^verbatim>\<open>__init__\<close> has set the \<^verbatim>\<open>events\<close> slot; \<open>next_ref\<close>
  is the next object identity to allocate.
\<close>

type_synonym ref = nat

record world =
  singleton :: "ref option"
  heap :: "ref \<rightharpoonup> dispatcher"
  next_ref :: ref

definition initial_world :: world where
  "initial_world = \<lparr>singleton = None, heap = Map.empty, next_ref = 0\<rparr>"

text \<open>
  \<^verbatim>\<open>EventDispatcher()\<close>: a fresh object is allocated, then \<^verbatim>\<open>__init__\<close> runs on it.
\<close>

definition EventDispatcher_init :: "world \<Rightarrow> (error + ref) \<times> world" where
  "EventDispatcher_init w =
     (let self = next_ref w; w1 = w\<lparr>next_ref := Suc (next_ref w)\<rparr> in
      if singleton w1 \<noteq> None then (Inl (InstantiationError ''This class is a singleton!''), w1)
      else (Inr self, w1\<lparr>heap := (heap w1)(self \<mapsto> \<lparr>events = Map.empty\<rparr>), singleton := Some self\<rparr>))"

definition get_instance :: "world \<Rightarrow> (error + ref option) \<times> world" where
  "get_instance w =
     (if singleton w = None then
        (case EventDispatcher_init w of
           (Inl e, w') \<Rightarrow> (Inl e, w')
         | (Inr _, w') \<Rightarrow> (Inr (singleton w'), w'))
      else (Inr (singleton w), w))"

text \<open>Client code that touches the singleton: a sequence of accesses and constructions.\<close>

datatype action = GetInstance | Construct

fun perform :: "world \<Rightarrow> action \<Rightarrow> (error + ref option) \<times> world" where
  "perform w GetInstance = get_instance w"
| "perform w Construct =
     (case EventDispatcher_init w of
        (Inl e, w') \<Rightarrow> (Inl e, w')
      | (Inr r, w') \<Rightarrow> (Inr (Some r), w'))"

fun perform_all :: "world \<Rightarrow> action list \<Rightarrow> (error + ref option) list \<times> world" where
  "perform_all w [] = ([], w)"
| "perform_all w (a # as) =
     (case perform w a of (r, w') \<Rightarrow>
        (case perform_all w' as of (rs, w'') \<Rightarrow> (r # rs, w'')))"

subsection \<open>Attribute access\<close>

definition getattr :: "pyobject \<Rightarrow> string \<Rightarrow> error + callable" where
  "getattr obj name = (case obj name of None \<Rightarrow> Inl (AttributeError name) | Some v \<Rightarrow> Inr v)"

definition hasattr :: "pyobject \<Rightarrow> string \<Rightarrow> bool" where
  "hasattr obj name = (case getattr obj name of Inl _ \<Rightarrow> False | Inr _ \<Rightarrow> True)"

text \<open>\<^verbatim>\<open>not method\<close> for \<^verbatim>\<open>method: Optional[str]\<close>: true for \<^verbatim>\<open>None\<close> and for \<^verbatim>\<open>""\<close>.\<close>

definition not_method :: "string option \<Rightarrow> bool" where
  "not_method method = (case method of None \<Rightarrow> True | Some m \<Rightarrow> m = [])"

subsection \<open>The operations\<close>

definition get_subscribers :: "dispatcher \<Rightarrow> string \<Rightarrow> error + callable list" where
  "get_subscribers d event =
     (case events d event of
        None \<Rightarrow> Inl (KeyError event)
      | Some es \<Rightarrow> Inr (map fst es))"

text \<open>
  \<^verbatim>\<open>register\<close>: the key is created first; then the arguments of \<^verbatim>\<open>append\<close> are
  evaluated, the \<^verbatim>\<open>getattr\<close> of the notify callback first; then the pair is appended.
\<close>

definition register :: "dispatcher \<Rightarrow> string \<Rightarrow> pyobject \<Rightarrow> string option \<Rightarrow> (error + unit) \<times> dispatcher" where
  "register d event obj method =
     (let d1 = (if event \<notin> dom (events d) then d\<lparr>events := (events d)(event \<mapsto> [])\<rparr> else d) in
      case getattr obj (if not_method method then ''run'' else the method) of
        Inl e \<Rightarrow> (Inl e, d1)
      | Inr run_callback \<Rightarrow>
          (let unregister_callback =
                 (if hasattr obj ''unregister''
                  then (case getattr obj ''unregister'' of Inr u \<Rightarrow> Some u | Inl _ \<Rightarrow> None)
                  else None)
           in (Inr (), d1\<lparr>events := (events d1)(event \<mapsto>
                 (case events d1 event of Some es \<Rightarrow> es | None \<Rightarrow> []) @ [(run_callback, unregister_callback)])\<rparr>)))"

text \<open>One call: it is logged, and \<open>beh\<close> says whether it raises.\<close>

definition invoke :: "'v behaviour \<Rightarrow> 'v call list \<Rightarrow> callable \<Rightarrow> 'v kwargs \<Rightarrow> error option \<times> 'v call list" where
  "invoke beh tr cb kw = (beh tr (Call cb kw), tr @ [Call cb kw])"

text \<open>\<^verbatim>\<open>for (run_callback, _) in self.events[event]: run_callback(**kwargs)\<close>\<close>

fun dispatch_loop :: "'v behaviour \<Rightarrow> 'v call list \<Rightarrow> entry list \<Rightarrow> 'v kwargs \<Rightarrow> error option \<times> 'v call list" where
  "dispatch_loop beh tr [] kw = (None, tr)"
| "dispatch_loop beh tr ((run_callback, _) # rest) kw =
     (case invoke beh tr run_callback kw of
        (Some e, tr') \<Rightarrow> (Some e, tr')
      | (None, tr') \<Rightarrow> dispatch_loop beh tr' rest kw)"

definition dispatch :: "'v behaviour \<Rightarrow> dispatcher \<Rightarrow> 'v call list \<Rightarrow> string \<Rightarrow> 'v kwargs \<Rightarrow> (error + unit) \<times> dispatcher \<times> 'v call list" where
  "dispatch beh d tr event kw =
     (case events d event of
        None \<Rightarrow> (Inr (), d, tr)
      | Some es \<Rightarrow>
          (case dispatch_loop beh tr es kw of
             (Some e, tr') \<Rightarrow> (Inl e, d, tr')
           | (None, tr') \<Rightarrow> (Inr (), d, tr')))"

text \<open>
  \<^verbatim>\<open>for (_, unregister_callback) in self.events[event]:
      if unregister_callback: unregister_callback()\<close>
\<close>

fun unregister_loop :: "'v behaviour \<Rightarrow> 'v call list \<Rightarrow> entry list \<Rightarrow> error option \<times> 'v call list" where
  "unregister_loop beh tr [] = (None, tr)"
| "unregister_loop beh tr ((_, unregister_callback) # rest) =
     (case unregister_callback of
        None \<Rightarrow> unregister_loop beh tr rest
      | Some cb \<Rightarrow>
          if cb_truthy cb then
            (case invoke beh tr cb [] of
               (Some e, tr') \<Rightarrow> (Some e, tr')
             | (None, tr') \<Rightarrow> unregister_loop beh tr' rest)
          else unregister_loop beh tr rest)"

definition unregister :: "'v behaviour \<Rightarrow> dispatcher \<Rightarrow> 'v call list \<Rightarrow> string \<Rightarrow> (error + unit) \<times> dispatcher \<times> 'v call list" where
  "unregister beh d tr event =
     (case events d event of
        None \<Rightarrow> (Inr (), d, tr)
      | Some es \<Rightarrow>
          (case unregister_loop beh tr es of
             (Some e, tr') \<Rightarrow> (Inl e, d, tr')
           | (None, tr') \<Rightarrow> (Inr (), d\<lparr>events := (events d)(event := None)\<rparr>, tr')))"


subsection \<open>Client programs\<close>

text \<open>
  A client is a sequence of calls on one dispatcher. A call that raises leaves the
  dispatcher as the exception found it, and the client goes on with the next call.
\<close>

datatype 'v op =
    Register string pyobject "string option"
  | Dispatch string "'v kwargs"
  | Unregister string

fun op_event :: "'v op \<Rightarrow> string" where
  "op_event (Register event _ _) = event"
| "op_event (Dispatch event _) = event"
| "op_event (Unregister event) = event"

fun exec :: "'v behaviour \<Rightarrow> dispatcher \<times> 'v call list \<Rightarrow> 'v op \<Rightarrow> (error + unit) \<times> dispatcher \<times> 'v call list" where
  "exec beh (d, tr) (Register event obj method) =
     (case register d event obj method of (r, d') \<Rightarrow> (r, d', tr))"
| "exec beh (d, tr) (Dispatch event kw) = dispatch beh d tr event kw"
| "exec beh (d, tr) (Unregister event) = unregister beh d tr event"

fun exec_all :: "'v behaviour \<Rightarrow> dispatcher \<times> 'v call list \<Rightarrow> 'v op list \<Rightarrow> dispatcher \<times> 'v call list" where
  "exec_all beh s [] = s"
| "exec_all beh s (x # xs) = exec_all beh (snd (exec beh s x)) xs"

subsection \<open>Notions used to state the properties\<close>

text \<open>
  The calls a full pass over the entries makes, in order: every notify callback with the
  keyword arguments; every teardown callback that is present and true, with no argument.
\<close>

definition notify_calls :: "entry list \<Rightarrow> 'v kwargs \<Rightarrow> 'v call list" where
  "notify_calls es kw = map (\<lambda>(run_callback, _). Call run_callback kw) es"

definition teardowns :: "entry list \<Rightarrow> callable list" where
  "teardowns es =
     concat (map (\<lambda>(_, unregister_callback).
        case unregister_callback of
          None \<Rightarrow> []
        | Some cb \<Rightarrow> if cb_truthy cb then [cb] else []) es)"

definition teardown_calls :: "entry list \<Rightarrow> 'v call list" where
  "teardown_calls es = map (\<lambda>cb. Call cb []) (teardowns es)"

text \<open>Calling \<open>cs\<close> one after the other, stopping at the first call that raises.\<close>

fun run_calls :: "'v behaviour \<Rightarrow> 'v call list \<Rightarrow> 'v call list \<Rightarrow> error option \<times> 'v call list" where
  "run_calls beh tr [] = (None, tr)"
| "run_calls beh tr (c # cs) =
     (case beh tr c of
        Some e \<Rightarrow> (Some e, tr @ [c])
      | None \<Rightarrow> run_calls beh (tr @ [c]) cs)"

text \<open>Every call of \<open>cs\<close>, made in this order after the calls \<open>tr\<close>, returns.\<close>

fun all_return :: "'v behaviour \<Rightarrow> 'v call list \<Rightarrow> 'v call list \<Rightarrow> bool" where
  "all_return beh tr [] = True"
| "all_return beh tr (c # cs) = (beh tr c = None \<and> all_return beh (tr @ [c]) cs)"

text \<open>No key of the dictionary holds the empty list.\<close>

definition no_empty_list :: "dispatcher \<Rightarrow> bool" where
  "no_empty_list d = ([] \<notin> ran (events d))"

text \<open>The attribute that \<^verbatim>\<open>register\<close> looks up for the notify callback.\<close>

fun register_resolves :: "'v op \<Rightarrow> bool" where
  "register_resolves (Register event obj method) =
     (obj (if not_method method then ''run'' else the method) \<noteq> None)"
| "register_resolves _ = True"

text \<open>
  A run in which no \<^verbatim>\<open>register\<close> fails under a name that is not yet a key: every
  \<^verbatim>\<open>register\<close> of the run finds its notify capability, or names an event that is a key
  of the registry at the time of the call.
\<close>

fun no_failure_on_new_key :: "'v behaviour \<Rightarrow> dispatcher \<times> 'v call list \<Rightarrow> 'v op list \<Rightarrow> bool" where
  "no_failure_on_new_key beh s [] = True"
| "no_failure_on_new_key beh s (x # xs) =
     ((register_resolves x \<or> events (fst s) (op_event x) \<noteq> None)
      \<and> no_failure_on_new_key beh (snd (exec beh s x)) xs)"


section \<open>Auxiliary facts\<close>

subsection \<open>The two loops\<close>

lemma run_calls_all_return:
  "all_return beh tr cs \<Longrightarrow> run_calls beh tr cs = (None, tr @ cs)"
  by (induction cs arbitrary: tr) auto

lemma run_calls_None:
  "run_calls beh tr cs = (None, tr') \<Longrightarrow> tr' = tr @ cs \<and> all_return beh tr cs"
proof (induction cs arbitrary: tr)
  case Nil
  then show ?case by simp
next
  case (Cons c cs)
  from Cons.prems have c: "beh tr c = None"
    by (cases "beh tr c") auto
  with Cons.prems have "run_calls beh (tr @ [c]) cs = (None, tr')" by simp
  from Cons.IH [OF this] c show ?case by simp
qed

lemma run_calls_Some:
  "run_calls beh tr cs = (Some e, tr') \<Longrightarrow>
     \<exists>k<length cs. tr' = tr @ take (Suc k) cs \<and> all_return beh tr (take k cs)
        \<and> beh (tr @ take k cs) (cs ! k) = Some e"
proof (induction cs arbitrary: tr)
  case Nil
  then show ?case by simp
next
  case (Cons c cs)
  show ?case
  proof (cases "beh tr c")
    case None
    with Cons.prems have "run_calls beh (tr @ [c]) cs = (Some e, tr')" by simp
    from Cons.IH [OF this] obtain k where k: "k < length cs"
      "tr' = (tr @ [c]) @ take (Suc k) cs" "all_return beh (tr @ [c]) (take k cs)"
      "beh ((tr @ [c]) @ take k cs) (cs ! k) = Some e" by blast
    with None have "Suc k < length (c # cs) \<and> tr' = tr @ take (Suc (Suc k)) (c # cs)
       \<and> all_return beh tr (take (Suc k) (c # cs))
       \<and> beh (tr @ take (Suc k) (c # cs)) ((c # cs) ! Suc k) = Some e" by simp
    then show ?thesis by blast
  next
    case (Some e')
    with Cons.prems have "0 < length (c # cs) \<and> tr' = tr @ take (Suc 0) (c # cs)
       \<and> all_return beh tr (take 0 (c # cs)) \<and> beh (tr @ take 0 (c # cs)) ((c # cs) ! 0) = Some e"
      by simp
    then show ?thesis by blast
  qed
qed


lemma dispatch_loop_run_calls:
  "dispatch_loop beh tr es kw = run_calls beh tr (notify_calls es kw)"
  by (induction es arbitrary: tr) (auto simp: notify_calls_def invoke_def split: option.splits)

lemma unregister_loop_run_calls:
  "unregister_loop beh tr es = run_calls beh tr (teardown_calls es)"
  by (induction es arbitrary: tr) (auto simp: teardown_calls_def teardowns_def invoke_def split: option.splits)

subsection \<open>The singleton\<close>

lemma EventDispatcher_init_existing:
  "singleton w = Some r \<Longrightarrow>
     EventDispatcher_init w
       = (Inl (InstantiationError ''This class is a singleton!''), w\<lparr>next_ref := Suc (next_ref w)\<rparr>)"
  by (simp add: EventDispatcher_init_def)

lemma get_instance_existing:
  "singleton w = Some r \<Longrightarrow> get_instance w = (Inr (Some r), w)"
  by (simp add: get_instance_def)

lemma perform_all_existing:
  "singleton w = Some r \<Longrightarrow>
     fst (perform_all w acts)
       = map (\<lambda>a. case a of GetInstance \<Rightarrow> Inr (Some r)
                     | Construct \<Rightarrow> Inl (InstantiationError ''This class is a singleton!'')) acts
     \<and> singleton (snd (perform_all w acts)) = Some r
     \<and> heap (snd (perform_all w acts)) = heap w"
proof (induction acts arbitrary: w)
  case Nil
  then show ?case by simp
next
  case (Cons a acts)
  show ?case
  proof (cases a)
    case GetInstance
    with Cons.prems Cons.IH [of w] show ?thesis
      by (auto simp: get_instance_existing split: prod.splits)
  next
    case Construct
    from Cons.prems have "singleton (w\<lparr>next_ref := Suc (next_ref w)\<rparr>) = Some r" by simp
    from Cons.IH [OF this] Construct Cons.prems show ?thesis
      by (auto simp: EventDispatcher_init_existing split: prod.splits)
  qed
qed

subsection \<open>Events an operation does not name\<close>



lemma dispatch_state:
  "fst (snd (dispatch beh d tr event kw)) = d"
  by (simp add: dispatch_def split: option.splits prod.splits)



lemma unregister_state:
  "fst (snd (unregister beh d tr event)) = d
   \<or> fst (snd (unregister beh d tr event)) = d\<lparr>events := (events d)(event := None)\<rparr>"
  by (simp add: unregister_def split: option.splits prod.splits)




subsection \<open>Keys bound to the empty list\<close>

lemma register_succeeds_iff:
  "(fst (register d event obj method) = Inr ()) = register_resolves (Register event obj method)"
  by (auto simp: register_def getattr_def Let_def split: option.splits)

lemma register_success:
  assumes "obj (if not_method method then ''run'' else the method) = Some cb"
  shows "register d event obj method
           = (Inr (), d\<lparr>events := (events d)(event \<mapsto>
                (case events d event of None \<Rightarrow> [] | Some es \<Rightarrow> es) @ [(cb, obj ''unregister'')])\<rparr>)"
proof -
  have td: "(if hasattr obj ''unregister''
             then (case getattr obj ''unregister'' of Inr u \<Rightarrow> Some u | Inl _ \<Rightarrow> None)
             else None) = obj ''unregister''"
    by (simp add: hasattr_def getattr_def split: option.splits)
  from assms show ?thesis unfolding register_def td
    by (cases "events d event") (auto simp: getattr_def Let_def)
qed

text \<open>
  A \<^verbatim>\<open>register\<close> that does not find its notify capability raises \<^verbatim>\<open>AttributeError\<close>
  and appends no entry; the registry is as before when the event was a key already.
\<close>

lemma register_failure:
  assumes "obj (if not_method method then ''run'' else the method) = None"
  shows "register d event obj method
           = (Inl (AttributeError (if not_method method then ''run'' else the method)),
              if event \<in> dom (events d) then d else d\<lparr>events := (events d)(event \<mapsto> [])\<rparr>)"
  using assms by (simp add: register_def getattr_def Let_def)

lemma register_no_empty_list:
  assumes "register_resolves (Register event obj method)" and "no_empty_list d"
  shows "no_empty_list (snd (register d event obj method))"
proof -
  from assms(1) obtain cb where cb: "obj (if not_method method then ''run'' else the method) = Some cb"
    by auto
  note reg = register_success [of obj "method" cb d event, OF cb]
  from assms(2) show ?thesis unfolding reg
    by (auto simp: no_empty_list_def ran_def split: if_splits)
qed

lemma unregister_no_empty_list:
  "no_empty_list d \<Longrightarrow> no_empty_list (fst (snd (unregister beh d tr event)))"
  using unregister_state [of beh d tr event]
  by (auto simp: no_empty_list_def ran_def split: if_splits)

lemma exec_no_empty_list:
  assumes "register_resolves x \<or> events (fst s) (op_event x) \<noteq> None"
    and "no_empty_list (fst s)"
  shows "no_empty_list (fst (snd (exec beh s x)))"
proof (cases s)
  case (Pair d tr)
  with assms(2) have n: "no_empty_list d" by simp
  show ?thesis
  proof (cases x)
    case (Register event obj m)
    show ?thesis
    proof (cases "register_resolves x")
      case True
      with Register n Pair register_no_empty_list [of event obj m d] show ?thesis
        by (cases "register d event obj m") simp
    next
      case False
      with assms(1) Register Pair have key: "event \<in> dom (events d)" by auto
      from False Register have "obj (if not_method m then ''run'' else the m) = None" by simp
      with register_failure [of obj m d event] key have "snd (register d event obj m) = d"
        by simp
      with Register n Pair show ?thesis
        by (cases "register d event obj m") simp
    qed
  next
    case (Dispatch event kw)
    with n Pair dispatch_state [of beh d tr event kw] show ?thesis by simp
  next
    case (Unregister event)
    with n Pair unregister_no_empty_list [of d beh tr event] show ?thesis by simp
  qed
qed

lemma exec_all_no_empty_list:
  "no_failure_on_new_key beh s ops \<Longrightarrow> no_empty_list (fst s) \<Longrightarrow>
     no_empty_list (fst (exec_all beh s ops))"
proof (induction ops arbitrary: s)
  case Nil
  then show ?case by simp
next
  case (Cons x ops)
  from Cons.prems have "no_empty_list (fst (snd (exec beh s x)))"
    by (simp add: exec_no_empty_list)
  with Cons.prems Cons.IH [of "snd (exec beh s x)"] show ?case by simp
qed

text \<open>
  For a name that is not a key, \<^verbatim>\<open>get_subscribers\<close> fails with \<^verbatim>\<open>KeyError\<close>, and
  \<^verbatim>\<open>dispatch\<close> and \<^verbatim>\<open>unregister\<close> return, call nothing and leave the registry as it
  was.
\<close>

lemma absent_key_asymmetry:
  assumes "events d event = None"
  shows "get_subscribers d event = Inl (KeyError event)
       \<and> dispatch beh d tr event kw = (Inr (), d, tr)
       \<and> unregister beh d tr event = (Inr (), d, tr)"
  using assms by (simp add: get_subscribers_def dispatch_def unregister_def)

section \<open>The claims\<close>

text \<open>
  C1. A \<^verbatim>\<open>register\<close> whose notify capability is missing fails with the missing-capability
  error and is said to leave the registry as it was. The code creates the key before it
  resolves the capability: on the empty registry, registering under \<open>e\<close> an object with
  no \<open>run\<close> attribute raises \<^verbatim>\<open>AttributeError\<close> and leaves \<open>e\<close> bound to the empty
  list, so that \<^verbatim>\<open>get_subscribers\<close> of \<open>e\<close> then returns the empty list.
\<close>

theorem register_missing_capability_leaves_key:
  "register \<lparr>events = Map.empty\<rparr> ''e'' Map.empty None
     = (Inl (AttributeError ''run''), \<lparr>events = [''e'' \<mapsto> []]\<rparr>)
   \<and> get_subscribers (snd (register \<lparr>events = Map.empty\<rparr> ''e'' Map.empty None)) ''e'' = Inr []"
  by (simp add: register_def getattr_def not_method_def get_subscribers_def)

text \<open>
  C2. \<^verbatim>\<open>get_subscribers\<close> is said to fail, and \<^verbatim>\<open>dispatch\<close> and \<^verbatim>\<open>unregister\<close> to
  do nothing, for every event name with no registrations. After the failed
  \<^verbatim>\<open>register\<close> of C1 the name \<open>e\<close> has no registration, but it is a key: there
  \<^verbatim>\<open>get_subscribers\<close> returns the empty list instead of failing, and \<^verbatim>\<open>unregister\<close>
  changes the registry, removing the key. (For a name that is not a key the three
  operations behave as said: \<open>absent_key_asymmetry\<close>.)
\<close>

theorem get_subscribers_after_failed_register:
  "fst (register \<lparr>events = Map.empty\<rparr> ''e'' Map.empty None) = Inl (AttributeError ''run'')
   \<and> get_subscribers (snd (register \<lparr>events = Map.empty\<rparr> ''e'' Map.empty None)) ''e'' = Inr []
   \<and> dispatch (\<lambda>tr c. None) (snd (register \<lparr>events = Map.empty\<rparr> ''e'' Map.empty None))
        [] ''e'' [(''x'', 1::int)]
       = (Inr (), \<lparr>events = [''e'' \<mapsto> []]\<rparr>, [])
   \<and> unregister (\<lambda>tr c. None) (snd (register \<lparr>events = Map.empty\<rparr> ''e'' Map.empty None))
        ([] :: int call list) ''e''
       = (Inr (), \<lparr>events = Map.empty\<rparr>, [])"
  by (simp add: register_def getattr_def not_method_def get_subscribers_def dispatch_def
      unregister_def)

text \<open>
  C3. Every key of a reachable registry is said to hold a non-empty list, failed
  \<^verbatim>\<open>register\<close> calls included, and \<^verbatim>\<open>unregister\<close> of a registered event is said to
  remove its key. After a failed \<^verbatim>\<open>register\<close> on the empty registry the key holds the
  empty list; and an \<^verbatim>\<open>unregister\<close> whose teardown raises leaves the key in place.
\<close>

theorem failed_register_leaves_empty_list:
  "\<not> no_empty_list (fst (exec_all (\<lambda>tr c. None) (\<lparr>events = Map.empty\<rparr>, [] :: int call list)
        [Register ''e'' Map.empty None]))
   \<and> fst (unregister (\<lambda>tr c. Some (SubscriberError ''boom''))
        \<lparr>events = [''e'' \<mapsto> [(Callable ''s.run'' True, Some (Callable ''s.unregister'' True))]]\<rparr>
        ([] :: int call list) ''e'') = Inl (SubscriberError ''boom'')
   \<and> events (fst (snd (unregister (\<lambda>tr c. Some (SubscriberError ''boom''))
        \<lparr>events = [''e'' \<mapsto> [(Callable ''s.run'' True, Some (Callable ''s.unregister'' True))]]\<rparr>
        ([] :: int call list) ''e''))) ''e''
       = Some [(Callable ''s.run'' True, Some (Callable ''s.unregister'' True))]"
  by (simp add: no_empty_list_def register_def getattr_def not_method_def unregister_def invoke_def)

text \<open>
  C3, amended. In every registry reached from the empty one by \<^verbatim>\<open>register\<close>,
  \<^verbatim>\<open>dispatch\<close> and \<^verbatim>\<open>unregister\<close> calls, failing calls included, in which no
  \<^verbatim>\<open>register\<close> fails under a name that is not a key at the time of the call, every key
  holds a non-empty list; and an \<^verbatim>\<open>unregister\<close> of a registered event that returns
  removes the key of the event. (A \<^verbatim>\<open>register\<close> fails exactly when it does not find its
  notify capability.)
\<close>

theorem no_empty_list_reachable:
  "(no_failure_on_new_key beh (\<lparr>events = Map.empty\<rparr>, tr) ops \<longrightarrow>
      no_empty_list (fst (exec_all beh (\<lparr>events = Map.empty\<rparr>, tr) ops)))
   \<and> (events d event = Some es \<and> fst (unregister beh d tr event) = Inr () \<longrightarrow>
        fst (snd (unregister beh d tr event)) = d\<lparr>events := (events d)(event := None)\<rparr>
        \<and> events (fst (snd (unregister beh d tr event))) event = None)
   \<and> ((fst (register d event obj method) = Inr ())
        = register_resolves (Register event obj method :: 'v op))"
proof -
  have "no_empty_list \<lparr>events = Map.empty\<rparr>"
    by (simp add: no_empty_list_def)
  then have a: "no_failure_on_new_key beh (\<lparr>events = Map.empty\<rparr>, tr) ops \<Longrightarrow>
      no_empty_list (fst (exec_all beh (\<lparr>events = Map.empty\<rparr>, tr) ops))"
    by (simp add: exec_all_no_empty_list)
  have b: "fst (snd (unregister beh d tr event)) = d\<lparr>events := (events d)(event := None)\<rparr>
        \<and> events (fst (snd (unregister beh d tr event))) event = None"
    if "events d event = Some es" "fst (unregister beh d tr event) = Inr ()"
    using that
    by (cases "unregister_loop beh tr es") (auto simp: unregister_def split: option.splits)
  have c: "(fst (register d event obj method) = Inr ())
        = register_resolves (Register event obj method :: 'v op)"
    by (rule register_succeeds_iff)
  from a b c show ?thesis by blast
qed

theorem no_empty_list_reachable_witness:
  "no_failure_on_new_key (\<lambda>tr c. if cb_id (target c) = ''t.handle'' then Some (SubscriberError ''boom'') else None)
     (\<lparr>events = Map.empty\<rparr>, [])
     [Register ''e'' [''run'' \<mapsto> Callable ''s.run'' True] None,
      Register ''e'' Map.empty None,
      Dispatch ''e'' [(''x'', 1::int)],
      Register ''f'' [''handle'' \<mapsto> Callable ''t.handle'' True] (Some ''handle''),
      Dispatch ''f'' [(''x'', 1::int)],
      Unregister ''e'']
   \<and> fst (register \<lparr>events = [''e'' \<mapsto> [(Callable ''s.run'' True, None)]]\<rparr> ''e'' Map.empty None)
      = Inl (AttributeError ''run'')
   \<and> no_empty_list (fst (exec_all (\<lambda>tr c. if cb_id (target c) = ''t.handle'' then Some (SubscriberError ''boom'') else None)
       (\<lparr>events = Map.empty\<rparr>, [])
       [Register ''e'' [''run'' \<mapsto> Callable ''s.run'' True] None,
        Register ''e'' Map.empty None,
        Dispatch ''e'' [(''x'', 1::int)],
        Register ''f'' [''handle'' \<mapsto> Callable ''t.handle'' True] (Some ''handle''),
        Dispatch ''f'' [(''x'', 1::int)],
        Unregister ''e'']))
   \<and> events (fst (exec_all (\<lambda>tr c. if cb_id (target c) = ''t.handle'' then Some (SubscriberError ''boom'') else None)
       (\<lparr>events = Map.empty\<rparr>, [])
       [Register ''e'' [''run'' \<mapsto> Callable ''s.run'' True] None,
        Register ''e'' Map.empty None,
        Dispatch ''e'' [(''x'', 1::int)],
        Register ''f'' [''handle'' \<mapsto> Callable ''t.handle'' True] (Some ''handle''),
        Dispatch ''f'' [(''x'', 1::int)],
        Unregister ''e''])) ''f''
      = Some [(Callable ''t.handle'' True, None)]
   \<and> events \<lparr>events = [''e'' \<mapsto> [(Callable ''s.run'' True, None)]]\<rparr> ''e''
      = Some [(Callable ''s.run'' True, None)]
   \<and> fst (unregister (\<lambda>tr c. None) \<lparr>events = [''e'' \<mapsto> [(Callable ''s.run'' True, None)]]\<rparr>
        ([] :: int call list) ''e'') = Inr ()
   \<and> events (fst (snd (unregister (\<lambda>tr c. None) \<lparr>events = [''e'' \<mapsto> [(Callable ''s.run'' True, None)]]\<rparr>
        ([] :: int call list) ''e''))) ''e'' = None"
proof -
  let ?ops = "[Register ''e'' [''run'' \<mapsto> Callable ''s.run'' True] None,
      Register ''e'' Map.empty None,
      Dispatch ''e'' [(''x'', 1::int)],
      Register ''f'' [''handle'' \<mapsto> Callable ''t.handle'' True] (Some ''handle''),
      Dispatch ''f'' [(''x'', 1::int)],
      Unregister ''e'']"
  let ?beh = "\<lambda>(tr :: int call list) c.
     if cb_id (target c) = ''t.handle'' then Some (SubscriberError ''boom'') else None"
  let ?ok = "\<lambda>(tr :: int call list) (c :: int call). None :: error option"
  let ?d = "\<lparr>events = [''e'' \<mapsto> [(Callable ''s.run'' True, None)]]\<rparr>"
  note t1 = no_empty_list_reachable [where ops = ?ops and beh = ?beh and tr = "[]"]
  note t2 = no_empty_list_reachable [where beh = ?ok and tr = "[]" and d = ?d
      and event = "''e''" and es = "[(Callable ''s.run'' True, None)]"]
  have h1: "no_failure_on_new_key ?beh (\<lparr>events = Map.empty\<rparr>, []) ?ops"
    by (simp add: register_def getattr_def hasattr_def not_method_def dispatch_def invoke_def
        unregister_def)
  have h0: "fst (register ?d ''e'' Map.empty None) = Inl (AttributeError ''run'')"
    by (simp add: register_def getattr_def not_method_def)
  have h2: "events ?d ''e'' = Some [(Callable ''s.run'' True, None)]" by simp
  have h3: "fst (unregister ?ok ?d [] ''e'') = Inr ()" by (simp add: unregister_def)
  from t1 h1 have r1: "no_empty_list (fst (exec_all ?beh (\<lparr>events = Map.empty\<rparr>, []) ?ops))" by blast
  from t2 h2 h3 have r2: "events (fst (snd (unregister ?ok ?d [] ''e''))) ''e'' = None" by blast
  have r3: "events (fst (exec_all ?beh (\<lparr>events = Map.empty\<rparr>, []) ?ops)) ''f''
      = Some [(Callable ''t.handle'' True, None)]"
    by (simp add: register_def getattr_def hasattr_def not_method_def dispatch_def invoke_def
        unregister_def)
  from h1 h0 r1 r3 h2 h3 r2 show ?thesis by (intro conjI)
qed

text \<open>
  C4. \<^verbatim>\<open>dispatch\<close> is said to call the notify callback of every entry exactly once. It
  stops at the first callback that raises: with two subscribers of \<open>e\<close> of which the
  first raises, the second is never called.
\<close>

theorem dispatch_stops_at_raising_callback:
  "dispatch (\<lambda>tr c. if cb_id (target c) = ''s1.run'' then Some (SubscriberError ''boom'') else None)
      \<lparr>events = [''e'' \<mapsto> [(Callable ''s1.run'' True, None), (Callable ''s2.run'' True, None)]]\<rparr>
      [] ''e'' [(''x'', 1::int)]
    = (Inl (SubscriberError ''boom''),
       \<lparr>events = [''e'' \<mapsto> [(Callable ''s1.run'' True, None), (Callable ''s2.run'' True, None)]]\<rparr>,
       [Call (Callable ''s1.run'' True) [(''x'', 1)]])"
  by (simp add: dispatch_def invoke_def)

text \<open>
  C4, amended. For an event with entries \<open>es\<close>, \<^verbatim>\<open>dispatch\<close> calls the notify callbacks
  in registration order, each with the keyword arguments unchanged: all of them, each
  once, and it returns, when every call returns; otherwise up to and including the first
  call that raises (every call before it returns), whose exception it raises. For an event that is not registered it
  calls nothing and returns. It never changes the registry.
\<close>

theorem dispatch_notifies_in_order:
  "(events d event = None \<longrightarrow> dispatch beh d tr event kw = (Inr (), d, tr))
   \<and> (events d event = Some es \<and> all_return beh tr (map (\<lambda>entry. Call (fst entry) kw) es) \<longrightarrow>
        dispatch beh d tr event kw = (Inr (), d, tr @ map (\<lambda>entry. Call (fst entry) kw) es))
   \<and> (events d event = Some es \<and> \<not> all_return beh tr (map (\<lambda>entry. Call (fst entry) kw) es) \<longrightarrow>
        (\<exists>e k. k < length es
           \<and> dispatch beh d tr event kw
               = (Inl e, d, tr @ map (\<lambda>entry. Call (fst entry) kw) (take (Suc k) es))
           \<and> all_return beh tr (map (\<lambda>entry. Call (fst entry) kw) (take k es))
           \<and> beh (tr @ map (\<lambda>entry. Call (fst entry) kw) (take k es)) (Call (fst (es ! k)) kw) = Some e))
   \<and> fst (snd (dispatch beh d tr event kw)) = d"
proof -
  let ?cs = "map (\<lambda>entry. Call (fst entry) kw) es"
  have nc: "notify_calls es kw = ?cs"
    by (simp add: notify_calls_def case_prod_beta)
  have a: "events d event = None \<Longrightarrow> dispatch beh d tr event kw = (Inr (), d, tr)"
    by (simp add: dispatch_def)
  have b: "dispatch beh d tr event kw = (Inr (), d, tr @ ?cs)"
    if "events d event = Some es" "all_return beh tr ?cs"
    using that run_calls_all_return [of beh tr ?cs]
    by (simp add: dispatch_def dispatch_loop_run_calls nc)
  have c: "\<exists>e k. k < length es
           \<and> dispatch beh d tr event kw
               = (Inl e, d, tr @ map (\<lambda>entry. Call (fst entry) kw) (take (Suc k) es))
           \<and> all_return beh tr (map (\<lambda>entry. Call (fst entry) kw) (take k es))
           \<and> beh (tr @ map (\<lambda>entry. Call (fst entry) kw) (take k es)) (Call (fst (es ! k)) kw) = Some e"
    if ev: "events d event = Some es" and nr: "\<not> all_return beh tr ?cs"
  proof (cases "run_calls beh tr ?cs")
    case (Pair r tr')
    show ?thesis
    proof (cases r)
      case None
      with Pair nr run_calls_None [of beh tr ?cs tr'] show ?thesis by simp
    next
      case (Some e)
      with Pair have rc: "run_calls beh tr ?cs = (Some e, tr')" by simp
      from run_calls_Some [OF rc] obtain k where k: "k < length ?cs"
        "tr' = tr @ take (Suc k) ?cs" "beh (tr @ take k ?cs) (?cs ! k) = Some e"
        "all_return beh tr (take k ?cs)"
        by blast
      from k(1) have kl: "k < length es" by simp
      from rc ev k(2) have "dispatch beh d tr event kw
          = (Inl e, d, tr @ map (\<lambda>entry. Call (fst entry) kw) (take (Suc k) es))"
        by (simp add: dispatch_def dispatch_loop_run_calls nc take_map)
      moreover from k(3) kl
      have "beh (tr @ map (\<lambda>entry. Call (fst entry) kw) (take k es)) (Call (fst (es ! k)) kw) = Some e"
        by (simp add: take_map)
      moreover from k(4)
      have "all_return beh tr (map (\<lambda>entry. Call (fst entry) kw) (take k es))"
        by (simp add: take_map)
      ultimately show ?thesis using kl by blast
    qed
  qed
  have d: "fst (snd (dispatch beh d tr event kw)) = d"
    by (simp add: dispatch_def split: option.splits prod.splits)
  from a b c d show ?thesis by blast
qed

theorem dispatch_notifies_in_order_witness:
  "events \<lparr>events = Map.empty\<rparr> ''nonexistent'' = None
   \<and> dispatch (\<lambda>tr c. None) \<lparr>events = Map.empty\<rparr> [] ''nonexistent'' [(''x'', 1::int)]
       = (Inr (), \<lparr>events = Map.empty\<rparr>, [])
   \<and> events \<lparr>events = [''e'' \<mapsto> [(Callable ''s1.run'' True, None),
                                   (Callable ''s2.handle'' True, Some (Callable ''s2.unregister'' True))]]\<rparr> ''e''
       = Some [(Callable ''s1.run'' True, None),
               (Callable ''s2.handle'' True, Some (Callable ''s2.unregister'' True))]
   \<and> all_return (\<lambda>tr c. None) []
        [Call (Callable ''s1.run'' True) [(''x'', 1::int)], Call (Callable ''s2.handle'' True) [(''x'', 1)]]
   \<and> dispatch (\<lambda>tr c. None)
        \<lparr>events = [''e'' \<mapsto> [(Callable ''s1.run'' True, None),
                                (Callable ''s2.handle'' True, Some (Callable ''s2.unregister'' True))]]\<rparr>
        [] ''e'' [(''x'', 1::int)]
       = (Inr (),
          \<lparr>events = [''e'' \<mapsto> [(Callable ''s1.run'' True, None),
                                (Callable ''s2.handle'' True, Some (Callable ''s2.unregister'' True))]]\<rparr>,
          [Call (Callable ''s1.run'' True) [(''x'', 1)], Call (Callable ''s2.handle'' True) [(''x'', 1)]])
   \<and> \<not> all_return (\<lambda>tr c. if cb_id (target c) = ''s1.run'' then Some (SubscriberError ''boom'') else None) []
        [Call (Callable ''s1.run'' True) [(''x'', 1::int)], Call (Callable ''s2.handle'' True) [(''x'', 1)]]
   \<and> (\<exists>e k. dispatch (\<lambda>tr c. if cb_id (target c) = ''s1.run'' then Some (SubscriberError ''boom'') else None)
        \<lparr>events = [''e'' \<mapsto> [(Callable ''s1.run'' True, None),
                                (Callable ''s2.handle'' True, Some (Callable ''s2.unregister'' True))]]\<rparr>
        [] ''e'' [(''x'', 1::int)]
       = (Inl e,
          \<lparr>events = [''e'' \<mapsto> [(Callable ''s1.run'' True, None),
                                (Callable ''s2.handle'' True, Some (Callable ''s2.unregister'' True))]]\<rparr>,
          map (\<lambda>entry. Call (fst entry) [(''x'', 1)])
            (take (Suc k) [(Callable ''s1.run'' True, None),
                           (Callable ''s2.handle'' True, Some (Callable ''s2.unregister'' True))])))"
proof -
  let ?es = "[(Callable ''s1.run'' True, None),
              (Callable ''s2.handle'' True, Some (Callable ''s2.unregister'' True))]"
  let ?d = "\<lparr>events = [''e'' \<mapsto> ?es]\<rparr>"
  let ?kw = "[(''x'', 1::int)]"
  let ?ok = "\<lambda>(tr :: int call list) (c :: int call). None :: error option"
  let ?bad = "\<lambda>(tr :: int call list) c.
     if cb_id (target c) = ''s1.run'' then Some (SubscriberError ''boom'') else None"
  have h0: "events \<lparr>events = Map.empty\<rparr> ''nonexistent'' = None" by simp
  have h1: "events ?d ''e'' = Some ?es" by simp
  have h2: "all_return ?ok [] (map (\<lambda>entry. Call (fst entry) ?kw) ?es)" by simp
  have h3: "\<not> all_return ?bad [] (map (\<lambda>entry. Call (fst entry) ?kw) ?es)" by simp
  have r0: "dispatch ?ok \<lparr>events = Map.empty\<rparr> [] ''nonexistent'' ?kw = (Inr (), \<lparr>events = Map.empty\<rparr>, [])"
    using dispatch_notifies_in_order [of "\<lparr>events = Map.empty\<rparr>" "''nonexistent''" ?ok "[]" ?kw "[]"] h0
    by blast
  have r1: "dispatch ?ok ?d [] ''e'' ?kw = (Inr (), ?d, [] @ map (\<lambda>entry. Call (fst entry) ?kw) ?es)"
    using dispatch_notifies_in_order [of ?d "''e''" ?ok "[]" ?kw ?es] h1 h2 by blast
  have r2: "\<exists>e k. dispatch ?bad ?d [] ''e'' ?kw
        = (Inl e, ?d, [] @ map (\<lambda>entry. Call (fst entry) ?kw) (take (Suc k) ?es))"
    using dispatch_notifies_in_order [of ?d "''e''" ?bad "[]" ?kw ?es] h1 h3 by blast
  from h0 r0 h1 h2 r1 h3 r2 show ?thesis by simp
qed

text \<open>
  C5. \<^verbatim>\<open>unregister\<close> is said to call the teardown of every entry that has one and then
  to remove the key. With two subscribers of \<open>e\<close> of which the first teardown raises,
  only that teardown is called, the call fails and \<open>e\<close> keeps both entries, so that
  \<^verbatim>\<open>get_subscribers\<close> still answers. And a teardown attribute whose truth value is false
  is recorded by \<^verbatim>\<open>register\<close> but skipped by \<^verbatim>\<open>unregister\<close>.
\<close>

theorem unregister_stops_at_raising_teardown:
  "unregister (\<lambda>tr c. if cb_id (target c) = ''s1.unregister'' then Some (SubscriberError ''boom'') else None)
      \<lparr>events = [''e'' \<mapsto> [(Callable ''s1.run'' True, Some (Callable ''s1.unregister'' True)),
                              (Callable ''s2.run'' True, Some (Callable ''s2.unregister'' True))]]\<rparr>
      ([] :: int call list) ''e''
    = (Inl (SubscriberError ''boom''),
       \<lparr>events = [''e'' \<mapsto> [(Callable ''s1.run'' True, Some (Callable ''s1.unregister'' True)),
                               (Callable ''s2.run'' True, Some (Callable ''s2.unregister'' True))]]\<rparr>,
       [Call (Callable ''s1.unregister'' True) []])
   \<and> get_subscribers
        (fst (snd (unregister (\<lambda>tr c. if cb_id (target c) = ''s1.unregister'' then Some (SubscriberError ''boom'') else None)
          \<lparr>events = [''e'' \<mapsto> [(Callable ''s1.run'' True, Some (Callable ''s1.unregister'' True)),
                                  (Callable ''s2.run'' True, Some (Callable ''s2.unregister'' True))]]\<rparr>
          ([] :: int call list) ''e''))) ''e''
      = Inr [Callable ''s1.run'' True, Callable ''s2.run'' True]
   \<and> snd (register \<lparr>events = Map.empty\<rparr> ''f''
        [''run'' \<mapsto> Callable ''s3.run'' True, ''unregister'' \<mapsto> Callable ''s3.unregister'' False] None)
      = \<lparr>events = [''f'' \<mapsto> [(Callable ''s3.run'' True, Some (Callable ''s3.unregister'' False))]]\<rparr>
   \<and> snd (snd (unregister (\<lambda>tr c. None)
        \<lparr>events = [''f'' \<mapsto> [(Callable ''s3.run'' True, Some (Callable ''s3.unregister'' False))]]\<rparr>
        ([] :: int call list) ''f'')) = []"
  by (simp add: unregister_def invoke_def get_subscribers_def register_def getattr_def hasattr_def
      not_method_def)

text \<open>
  C5, amended. For an event with entries \<open>es\<close>, when every teardown that is called
  returns, \<^verbatim>\<open>unregister\<close> calls, in registration order, each once and with no argument,
  the teardown of every entry whose teardown is present and true, skipping the other
  entries; it then returns with the key of the event removed and every other key as it
  was, so that \<^verbatim>\<open>get_subscribers\<close> of the event fails with \<^verbatim>\<open>KeyError\<close>.
\<close>

theorem unregister_runs_teardowns_then_deletes:
  assumes "events d event = Some es"
    and "all_return beh tr (map (\<lambda>cb. Call cb []) (teardowns es))"
  shows "unregister beh d tr event
           = (Inr (), d\<lparr>events := (events d)(event := None)\<rparr>, tr @ map (\<lambda>cb. Call cb []) (teardowns es))
       \<and> teardowns es
           = map (\<lambda>entry. the (snd entry))
               (filter (\<lambda>entry. case snd entry of None \<Rightarrow> False | Some cb \<Rightarrow> cb_truthy cb) es)
       \<and> events (fst (snd (unregister beh d tr event))) event = None
       \<and> get_subscribers (fst (snd (unregister beh d tr event))) event = Inl (KeyError event)"
proof -
  from assms(2) have "run_calls beh tr (teardown_calls es) = (None, tr @ teardown_calls es)"
    unfolding teardown_calls_def by (rule run_calls_all_return)
  with assms(1) have u: "unregister beh d tr event
      = (Inr (), d\<lparr>events := (events d)(event := None)\<rparr>, tr @ map (\<lambda>cb. Call cb []) (teardowns es))"
    by (simp add: unregister_def unregister_loop_run_calls teardown_calls_def)
  have t: "teardowns es
      = map (\<lambda>entry. the (snd entry))
          (filter (\<lambda>entry. case snd entry of None \<Rightarrow> False | Some cb \<Rightarrow> cb_truthy cb) es)"
    by (induction es) (auto simp: teardowns_def split: option.splits)
  from u t show ?thesis by (simp add: get_subscribers_def)
qed

theorem unregister_runs_teardowns_then_deletes_witness:
  "events \<lparr>events = [''build.done'' \<mapsto> [(Callable ''s1.run'' True, None),
        (Callable ''s2.handle'' True, Some (Callable ''s2.unregister'' True))]]\<rparr> ''build.done''
     = Some [(Callable ''s1.run'' True, None),
             (Callable ''s2.handle'' True, Some (Callable ''s2.unregister'' True))]
   \<and> all_return (\<lambda>tr c. None) ([] :: int call list)
        (map (\<lambda>cb. Call cb []) (teardowns [(Callable ''s1.run'' True, None),
             (Callable ''s2.handle'' True, Some (Callable ''s2.unregister'' True))]))
   \<and> unregister (\<lambda>tr c. None)
        \<lparr>events = [''build.done'' \<mapsto> [(Callable ''s1.run'' True, None),
           (Callable ''s2.handle'' True, Some (Callable ''s2.unregister'' True))]]\<rparr>
        ([] :: int call list) ''build.done''
       = (Inr (), \<lparr>events = Map.empty\<rparr>, [Call (Callable ''s2.unregister'' True) []])
   \<and> get_subscribers \<lparr>events = Map.empty\<rparr> ''build.done'' = Inl (KeyError ''build.done'')"
proof -
  let ?es = "[(Callable ''s1.run'' True, None),
              (Callable ''s2.handle'' True, Some (Callable ''s2.unregister'' True))]"
  let ?d = "\<lparr>events = [''build.done'' \<mapsto> ?es]\<rparr>"
  let ?ok = "\<lambda>(tr :: int call list) (c :: int call). None :: error option"
  have ts: "teardowns ?es = [Callable ''s2.unregister'' True]"
    by (simp add: teardowns_def)
  have h1: "events ?d ''build.done'' = Some ?es" by simp
  have h2: "all_return ?ok [] (map (\<lambda>cb. Call cb []) (teardowns ?es))" by (simp add: ts)
  from unregister_runs_teardowns_then_deletes [OF h1 h2]
  have "unregister ?ok ?d [] ''build.done''
          = (Inr (), ?d\<lparr>events := (events ?d)(''build.done'' := None)\<rparr>,
             [] @ map (\<lambda>cb. Call cb []) (teardowns ?es))"
    and "get_subscribers (fst (snd (unregister ?ok ?d [] ''build.done''))) ''build.done''
          = Inl (KeyError ''build.done'')"
    by blast+
  with h1 h2 show ?thesis by (simp add: ts)
qed

text \<open>
  C6. \<^verbatim>\<open>get_instance\<close> never fails and returns the object bound to the class attribute,
  which it creates, with an empty \<^verbatim>\<open>events\<close> dictionary, only when there is none yet.
  From then on, in every sequence of accesses and direct constructions, every
  \<^verbatim>\<open>get_instance\<close> returns that same object without changing anything, and every direct
  construction fails with \<^verbatim>\<open>InstantiationError\<close>; the singleton stays bound and the
  objects, the singleton among them, keep their state.
\<close>

theorem get_instance_returns_the_singleton:
  "\<exists>r w1. get_instance w = (Inr (Some r), w1)
     \<and> singleton w1 = Some r
     \<and> (singleton w = None \<longrightarrow> r = next_ref w \<and> heap w1 = (heap w)(r \<mapsto> \<lparr>events = Map.empty\<rparr>))
     \<and> (singleton w \<noteq> None \<longrightarrow> singleton w = Some r \<and> w1 = w)
     \<and> get_instance w1 = (Inr (Some r), w1)
     \<and> fst (perform_all w1 acts)
         = map (\<lambda>a. case a of GetInstance \<Rightarrow> Inr (Some r)
                       | Construct \<Rightarrow> Inl (InstantiationError ''This class is a singleton!'')) acts
     \<and> singleton (snd (perform_all w1 acts)) = Some r
     \<and> heap (snd (perform_all w1 acts)) = heap w1"
proof (cases "singleton w")
  case None
  let ?r = "next_ref w"
  let ?w1 = "w\<lparr>next_ref := Suc (next_ref w), heap := (heap w)(?r \<mapsto> \<lparr>events = Map.empty\<rparr>),
               singleton := Some ?r\<rparr>"
  from None have g: "get_instance w = (Inr (Some ?r), ?w1)"
    by (simp add: get_instance_def EventDispatcher_init_def Let_def)
  have s: "singleton ?w1 = Some ?r" by simp
  from g s None get_instance_existing [OF s] perform_all_existing [OF s, of acts]
  show ?thesis by auto
next
  case (Some r)
  from Some get_instance_existing [OF Some] perform_all_existing [OF Some, of acts]
  show ?thesis by auto
qed

theorem get_instance_returns_the_singleton_witness:
  "singleton initial_world = None
   \<and> get_instance initial_world
       = (Inr (Some 0), \<lparr>singleton = Some 0, heap = [0 \<mapsto> \<lparr>events = Map.empty\<rparr>], next_ref = 1\<rparr>)
   \<and> get_instance \<lparr>singleton = Some 0, heap = [0 \<mapsto> \<lparr>events = Map.empty\<rparr>], next_ref = 1\<rparr>
       = (Inr (Some 0), \<lparr>singleton = Some 0, heap = [0 \<mapsto> \<lparr>events = Map.empty\<rparr>], next_ref = 1\<rparr>)
   \<and> fst (perform_all \<lparr>singleton = Some 0, heap = [0 \<mapsto> \<lparr>events = Map.empty\<rparr>], next_ref = 1\<rparr>
         [GetInstance, Construct, GetInstance])
       = [Inr (Some 0), Inl (InstantiationError ''This class is a singleton!''), Inr (Some 0)]
   \<and> heap (snd (perform_all \<lparr>singleton = Some 0, heap = [0 \<mapsto> \<lparr>events = Map.empty\<rparr>], next_ref = 1\<rparr>
         [GetInstance, Construct, GetInstance]))
       = [0 \<mapsto> \<lparr>events = Map.empty\<rparr>]"
proof -
  let ?w1 = "\<lparr>singleton = Some 0, heap = [0 \<mapsto> \<lparr>events = Map.empty\<rparr>], next_ref = 1\<rparr>"
  have h: "singleton initial_world = None" by (simp add: initial_world_def)
  have g: "get_instance initial_world = (Inr (Some 0), ?w1)"
    by (simp add: get_instance_def EventDispatcher_init_def initial_world_def)
  from get_instance_returns_the_singleton [of initial_world "[GetInstance, Construct, GetInstance]"]
  obtain r w1 where rw: "get_instance initial_world = (Inr (Some r), w1)"
    "get_instance w1 = (Inr (Some r), w1)"
    "fst (perform_all w1 [GetInstance, Construct, GetInstance])
       = map (\<lambda>a. case a of GetInstance \<Rightarrow> Inr (Some r)
                     | Construct \<Rightarrow> Inl (InstantiationError ''This class is a singleton!''))
           [GetInstance, Construct, GetInstance]"
    "heap (snd (perform_all w1 [GetInstance, Construct, GetInstance])) = heap w1"
    by blast
  from rw(1) g have "r = 0" "w1 = ?w1" by simp_all
  with rw h g show ?thesis by simp
qed

text \<open>
  C7. \<^verbatim>\<open>register\<close> is said to bind the capability named by the method name whenever
  one is given. Given the empty string, it binds \<open>run\<close>: for a subscriber with an
  attribute of the empty name and an attribute \<open>run\<close>, the entry holds the latter.
\<close>

theorem register_empty_method_binds_run:
  "[[] \<mapsto> Callable ''s.anonymous'' True, ''run'' \<mapsto> Callable ''s.run'' True] ''''
      = Some (Callable ''s.anonymous'' True)
   \<and> register \<lparr>events = Map.empty\<rparr> ''e''
        [[] \<mapsto> Callable ''s.anonymous'' True, ''run'' \<mapsto> Callable ''s.run'' True] (Some '''')
      = (Inr (), \<lparr>events = [''e'' \<mapsto> [(Callable ''s.run'' True, None)]]\<rparr>)"
  by (simp add: register_def getattr_def hasattr_def not_method_def)

text \<open>
  C7, amended. \<^verbatim>\<open>register\<close> binds as notify callback the attribute named by the method
  name when one is given and is not the empty string, and the attribute \<open>run\<close>
  otherwise. When the subscriber has that attribute, the call returns and appends one
  entry at the end of the list of the event (the empty list for a new event), every other
  event as it was; the teardown of the entry is the subscriber's \<open>unregister\<close> attribute
  when it has one, and absent otherwise. Registering the same subscriber under the same
  event \<open>K\<close> times, for \<open>K\<close> at least one, appends \<open>K\<close> such entries.
\<close>

theorem register_appends_entry:
  assumes "obj (case method of None \<Rightarrow> ''run'' | Some m \<Rightarrow> if m = '''' then ''run'' else m) = Some cb"
  shows "register d event obj method
           = (Inr (), d\<lparr>events := (events d)(event \<mapsto>
                (case events d event of None \<Rightarrow> [] | Some es \<Rightarrow> es) @ [(cb, obj ''unregister'')])\<rparr>)
       \<and> events (((\<lambda>d'. snd (register d' event obj method)) ^^ Suc k) d) event
           = Some ((case events d event of None \<Rightarrow> [] | Some es \<Rightarrow> es)
                    @ replicate (Suc k) (cb, obj ''unregister''))"
proof -
  have name: "(if not_method method then ''run'' else the method)
      = (case method of None \<Rightarrow> ''run'' | Some m \<Rightarrow> if m = '''' then ''run'' else m)"
    by (simp add: not_method_def split: option.splits)
  have one: "register d' event obj method
           = (Inr (), d'\<lparr>events := (events d')(event \<mapsto>
                (case events d' event of None \<Rightarrow> [] | Some es \<Rightarrow> es) @ [(cb, obj ''unregister'')])\<rparr>)"
    for d'
    using assms unfolding name [symmetric] by (rule register_success)
  have many: "events (((\<lambda>d'. snd (register d' event obj method)) ^^ Suc n) d) event
           = Some ((case events d event of None \<Rightarrow> [] | Some es \<Rightarrow> es)
                    @ replicate (Suc n) (cb, obj ''unregister''))" for n
  proof (induction n)
    case 0
    show ?case by (simp add: one)
  next
    case (Suc n)
    have "replicate n (cb, obj ''unregister'') @ [(cb, obj ''unregister'')]
        = replicate (Suc n) (cb, obj ''unregister'')"
      by (simp add: replicate_append_same)
    with Suc show ?case by (simp add: one)
  qed
  from one [of d] many [of k] show ?thesis by blast
qed

theorem register_appends_entry_witness:
  "[''run'' \<mapsto> Callable ''s.run'' True, ''unregister'' \<mapsto> Callable ''s.unregister'' True] ''run''
      = Some (Callable ''s.run'' True)
   \<and> register \<lparr>events = [''e'' \<mapsto> [(Callable ''t.handle'' True, None)]]\<rparr> ''e''
        [''run'' \<mapsto> Callable ''s.run'' True, ''unregister'' \<mapsto> Callable ''s.unregister'' True] None
      = (Inr (), \<lparr>events = [''e'' \<mapsto> [(Callable ''t.handle'' True, None),
            (Callable ''s.run'' True, Some (Callable ''s.unregister'' True))]]\<rparr>)
   \<and> events (((\<lambda>d'. snd (register d' ''e''
          [''run'' \<mapsto> Callable ''s.run'' True, ''unregister'' \<mapsto> Callable ''s.unregister'' True] None)) ^^ 3)
          \<lparr>events = [''e'' \<mapsto> [(Callable ''t.handle'' True, None)]]\<rparr>) ''e''
      = Some [(Callable ''t.handle'' True, None),
              (Callable ''s.run'' True, Some (Callable ''s.unregister'' True)),
              (Callable ''s.run'' True, Some (Callable ''s.unregister'' True)),
              (Callable ''s.run'' True, Some (Callable ''s.unregister'' True))]
   \<and> [''handle'' \<mapsto> Callable ''t.handle'' True] ''handle'' = Some (Callable ''t.handle'' True)
   \<and> register \<lparr>events = Map.empty\<rparr> ''e'' [''handle'' \<mapsto> Callable ''t.handle'' True] (Some ''handle'')
      = (Inr (), \<lparr>events = [''e'' \<mapsto> [(Callable ''t.handle'' True, None)]]\<rparr>)"
proof -
  let ?s = "[''run'' \<mapsto> Callable ''s.run'' True, ''unregister'' \<mapsto> Callable ''s.unregister'' True]"
  let ?t = "[''handle'' \<mapsto> Callable ''t.handle'' True]"
  let ?d = "\<lparr>events = [''e'' \<mapsto> [(Callable ''t.handle'' True, None)]]\<rparr>"
  have h1: "?s (case None of None \<Rightarrow> ''run'' | Some m \<Rightarrow> if m = '''' then ''run'' else m)
      = Some (Callable ''s.run'' True)" by simp
  have h2: "?t (case Some ''handle'' of None \<Rightarrow> ''run'' | Some m \<Rightarrow> if m = '''' then ''run'' else m)
      = Some (Callable ''t.handle'' True)" by simp
  note a = register_appends_entry [of ?s None "Callable ''s.run'' True" ?d "''e''" "Suc (Suc 0)",
      OF h1]
  note b = register_appends_entry [of ?t "Some ''handle''" "Callable ''t.handle'' True"
      "\<lparr>events = Map.empty\<rparr>" "''e''" 0, OF h2]
  have a1: "register ?d ''e'' ?s None
      = (Inr (), \<lparr>events = [''e'' \<mapsto> [(Callable ''t.handle'' True, None),
            (Callable ''s.run'' True, Some (Callable ''s.unregister'' True))]]\<rparr>)"
    using a [THEN conjunct1] by simp
  have a2: "events (((\<lambda>d'. snd (register d' ''e'' ?s None)) ^^ 3) ?d) ''e''
      = Some [(Callable ''t.handle'' True, None),
              (Callable ''s.run'' True, Some (Callable ''s.unregister'' True)),
              (Callable ''s.run'' True, Some (Callable ''s.unregister'' True)),
              (Callable ''s.run'' True, Some (Callable ''s.unregister'' True))]"
    using a [THEN conjunct2] by (simp add: numeral_3_eq_3)
  have b1: "register \<lparr>events = Map.empty\<rparr> ''e'' ?t (Some ''handle'')
      = (Inr (), \<lparr>events = [''e'' \<mapsto> [(Callable ''t.handle'' True, None)]]\<rparr>)"
    using b [THEN conjunct1] by simp
  have s1: "?s ''run'' = Some (Callable ''s.run'' True)" by simp
  have t1: "?t ''handle'' = Some (Callable ''t.handle'' True)" by simp
  from s1 a1 a2 t1 b1 show ?thesis by (intro conjI)
qed



text \<open>
  C9. When a teardown callback raises during \<^verbatim>\<open>unregister\<close> of a registered event, the
  call fails with that exception and the \<^verbatim>\<open>del\<close> is never reached: the registry is the
  one before the call, with the event and all its entries, although the teardowns before
  the raising one have been called (they are in the log, in registration order, the
  raising call last).
\<close>

theorem unregister_raising_teardown_keeps_event:
  assumes "events d event = Some es"
    and "\<not> all_return beh tr (teardown_calls es)"
  shows "\<exists>e k. k < length (teardowns es)
           \<and> unregister beh d tr event = (Inl e, d, tr @ take (Suc k) (teardown_calls es))
           \<and> beh (tr @ take k (teardown_calls es)) (teardown_calls es ! k) = Some e
           \<and> all_return beh tr (take k (teardown_calls es))
           \<and> events (fst (snd (unregister beh d tr event))) event = Some es"
proof (cases "run_calls beh tr (teardown_calls es)")
  case (Pair r tr')
  show ?thesis
  proof (cases r)
    case None
    with Pair assms(2) run_calls_None [of beh tr "teardown_calls es" tr'] show ?thesis
      by simp
  next
    case (Some e)
    with Pair have rc: "run_calls beh tr (teardown_calls es) = (Some e, tr')" by simp
    from run_calls_Some [OF rc] obtain k where k:
      "k < length (teardown_calls es :: 'a call list)" "tr' = tr @ take (Suc k) (teardown_calls es)"
      "all_return beh tr (take k (teardown_calls es))"
      "beh (tr @ take k (teardown_calls es)) (teardown_calls es ! k) = Some e"
      by blast
    from rc assms(1) k(2)
    have "unregister beh d tr event = (Inl e, d, tr @ take (Suc k) (teardown_calls es))"
      by (simp add: unregister_def unregister_loop_run_calls)
    with k assms(1) show ?thesis by (auto simp: teardown_calls_def)
  qed
qed

theorem unregister_raising_teardown_keeps_event_witness:
  "events \<lparr>events = [''e'' \<mapsto> [(Callable ''s1.run'' True, Some (Callable ''s1.unregister'' True)),
                                  (Callable ''s2.run'' True, Some (Callable ''s2.unregister'' True)),
                                  (Callable ''s3.run'' True, Some (Callable ''s3.unregister'' True))]]\<rparr> ''e''
     = Some [(Callable ''s1.run'' True, Some (Callable ''s1.unregister'' True)),
             (Callable ''s2.run'' True, Some (Callable ''s2.unregister'' True)),
             (Callable ''s3.run'' True, Some (Callable ''s3.unregister'' True))]
   \<and> \<not> all_return (\<lambda>tr c. if cb_id (target c) = ''s2.unregister'' then Some (SubscriberError ''boom'') else None)
          ([] :: int call list)
          (teardown_calls [(Callable ''s1.run'' True, Some (Callable ''s1.unregister'' True)),
             (Callable ''s2.run'' True, Some (Callable ''s2.unregister'' True)),
             (Callable ''s3.run'' True, Some (Callable ''s3.unregister'' True))])
   \<and> (\<exists>e k. unregister (\<lambda>tr c. if cb_id (target c) = ''s2.unregister'' then Some (SubscriberError ''boom'') else None)
          \<lparr>events = [''e'' \<mapsto> [(Callable ''s1.run'' True, Some (Callable ''s1.unregister'' True)),
                                  (Callable ''s2.run'' True, Some (Callable ''s2.unregister'' True)),
                                  (Callable ''s3.run'' True, Some (Callable ''s3.unregister'' True))]]\<rparr>
          ([] :: int call list) ''e''
        = (Inl e, \<lparr>events = [''e'' \<mapsto> [(Callable ''s1.run'' True, Some (Callable ''s1.unregister'' True)),
                                  (Callable ''s2.run'' True, Some (Callable ''s2.unregister'' True)),
                                  (Callable ''s3.run'' True, Some (Callable ''s3.unregister'' True))]]\<rparr>,
           take (Suc k) [Call (Callable ''s1.unregister'' True) [], Call (Callable ''s2.unregister'' True) [],
                         Call (Callable ''s3.unregister'' True) []]))"
proof -
  let ?es = "[(Callable ''s1.run'' True, Some (Callable ''s1.unregister'' True)),
             (Callable ''s2.run'' True, Some (Callable ''s2.unregister'' True)),
             (Callable ''s3.run'' True, Some (Callable ''s3.unregister'' True))]"
  let ?beh = "\<lambda>(tr :: int call list) c.
     if cb_id (target c) = ''s2.unregister'' then Some (SubscriberError ''boom'') else None"
  have tc: "(teardown_calls ?es :: int call list) =
      [Call (Callable ''s1.unregister'' True) [], Call (Callable ''s2.unregister'' True) [],
       Call (Callable ''s3.unregister'' True) []]"
    by (simp add: teardown_calls_def teardowns_def)
  have h1: "events \<lparr>events = [''e'' \<mapsto> ?es]\<rparr> ''e'' = Some ?es" by simp
  have h2: "\<not> all_return ?beh [] (teardown_calls ?es)" by (simp add: tc)
  from unregister_raising_teardown_keeps_event [OF h1 h2]
  have "\<exists>e k. unregister ?beh \<lparr>events = [''e'' \<mapsto> ?es]\<rparr> [] ''e''
          = (Inl e, \<lparr>events = [''e'' \<mapsto> ?es]\<rparr>, [] @ take (Suc k) (teardown_calls ?es))"
    by blast
  then show ?thesis using h1 h2 by (simp only: tc append_Nil) blast
qed

text \<open>
  C10. Registering with the empty string as method name is the same as registering with
  no method name: in both cases the \<open>run\<close> attribute is the one looked up, so that the
  entry appended holds the subscriber's \<open>run\<close> as notify callback, and the call fails
  with \<^verbatim>\<open>AttributeError\<close> for \<open>run\<close> when the subscriber has no such attribute.
\<close>

theorem register_empty_method_is_default:
  "register d event obj (Some '''') = register d event obj None
   \<and> (obj ''run'' = Some cb \<longrightarrow>
        register d event obj (Some '''')
          = (Inr (), d\<lparr>events := (events d)(event \<mapsto>
               (case events d event of None \<Rightarrow> [] | Some es \<Rightarrow> es) @ [(cb, obj ''unregister'')])\<rparr>))
   \<and> (obj ''run'' = None \<longrightarrow>
        fst (register d event obj (Some '''')) = Inl (AttributeError ''run'')
        \<and> fst (register d event obj None) = Inl (AttributeError ''run''))"
proof -
  have nm: "not_method (Some '''')" "not_method None"
    by (simp_all add: not_method_def)
  have a: "register d event obj (Some '''') = register d event obj None"
    by (simp add: register_def nm)
  have b: "register d event obj (Some '''')
          = (Inr (), d\<lparr>events := (events d)(event \<mapsto>
               (case events d event of None \<Rightarrow> [] | Some es \<Rightarrow> es) @ [(cb, obj ''unregister'')])\<rparr>)"
    if "obj ''run'' = Some cb"
    using register_success [of obj "Some ''''" cb d event] that nm by simp
  have c: "fst (register d event obj (Some '''')) = Inl (AttributeError ''run'')"
    if "obj ''run'' = None"
    using register_failure [of obj "Some ''''" d event] that nm by simp
  from a b c show ?thesis by simp
qed

theorem register_empty_method_is_default_witness:
  "[''run'' \<mapsto> Callable ''s.run'' True, ''handle'' \<mapsto> Callable ''s.handle'' True] ''run''
      = Some (Callable ''s.run'' True)
   \<and> register \<lparr>events = Map.empty\<rparr> ''e''
        [''run'' \<mapsto> Callable ''s.run'' True, ''handle'' \<mapsto> Callable ''s.handle'' True] (Some '''')
      = (Inr (), \<lparr>events = [''e'' \<mapsto> [(Callable ''s.run'' True, None)]]\<rparr>)
   \<and> register \<lparr>events = Map.empty\<rparr> ''e''
        [''run'' \<mapsto> Callable ''s.run'' True, ''handle'' \<mapsto> Callable ''s.handle'' True] None
      = (Inr (), \<lparr>events = [''e'' \<mapsto> [(Callable ''s.run'' True, None)]]\<rparr>)
   \<and> [''handle'' \<mapsto> Callable ''s.handle'' True] ''run'' = None
   \<and> fst (register \<lparr>events = Map.empty\<rparr> ''e'' [''handle'' \<mapsto> Callable ''s.handle'' True] (Some ''''))
      = Inl (AttributeError ''run'')"
proof -
  let ?s = "[''run'' \<mapsto> Callable ''s.run'' True, ''handle'' \<mapsto> Callable ''s.handle'' True]"
  let ?t = "[''handle'' \<mapsto> Callable ''s.handle'' True]"
  have h1: "?s ''run'' = Some (Callable ''s.run'' True)" by simp
  have h2: "?t ''run'' = None" by simp
  note a = register_empty_method_is_default [of "\<lparr>events = Map.empty\<rparr>" "''e''" ?s
      "Callable ''s.run'' True"]
  note b = register_empty_method_is_default [of "\<lparr>events = Map.empty\<rparr>" "''e''" ?t
      "Callable ''s.run'' True"]
  from a h1 have "register \<lparr>events = Map.empty\<rparr> ''e'' ?s (Some '''')
      = (Inr (), \<lparr>events = Map.empty\<rparr>\<lparr>events := (events \<lparr>events = Map.empty\<rparr>)(''e'' \<mapsto>
           (case events \<lparr>events = Map.empty\<rparr> ''e'' of None \<Rightarrow> [] | Some es \<Rightarrow> es)
             @ [(Callable ''s.run'' True, ?s ''unregister'')])\<rparr>)"
    by blast
  then have r1: "register \<lparr>events = Map.empty\<rparr> ''e'' ?s (Some '''')
      = (Inr (), \<lparr>events = [''e'' \<mapsto> [(Callable ''s.run'' True, None)]]\<rparr>)"
    by simp
  have r2: "register \<lparr>events = Map.empty\<rparr> ''e'' ?s None
      = (Inr (), \<lparr>events = [''e'' \<mapsto> [(Callable ''s.run'' True, None)]]\<rparr>)"
    unfolding a [THEN conjunct1, symmetric] by (rule r1)
  from b h2 have r3: "fst (register \<lparr>events = Map.empty\<rparr> ''e'' ?t (Some ''''))
      = Inl (AttributeError ''run'')"
    by blast
  from h1 r1 r2 h2 r3 show ?thesis by (intro conjI)
qed

end
